theory Spec2Isabelle
  imports Complex_Main
begin

section \<open>Numbers, arrays and errors\<close>

text \<open>
  The arrays of \<^verbatim>\<open>core.py\<close> hold IEEE doubles. A computed number is modelled as
  an exact real or one of the three special values that numpy produces instead of
  raising (division by zero, \<open>0/0\<close>, \<open>exp\<close> of an infinity): arithmetic is exact
  (no rounding, no overflow to infinity) and there is one zero. Input point coordinates
  are finite, so a data matrix is a list of rows of reals; a matrix of shape \<open>(0, D)\<close>
  is the empty list (its column count is not represented).
\<close>

datatype fl = Fl real | PosInf | NegInf | NaN

datatype error =
    InvalidSigma          \<comment> \<open>the ValueError raised by \<^verbatim>\<open>validate_sigma\<close>\<close>
  | ShapeError            \<comment> \<open>ValueError of numpy/scipy: operands of incompatible shape\<close>
  | EmptyReduction        \<comment> \<open>ValueError of numpy: min/max of a zero-size array, nothing to stack\<close>
  | NegativeCount         \<comment> \<open>ValueError of numpy: a negative repetition count\<close>
  | IndexError
  | TypeError
  | AttributeError
  | NameError string

fun inf_of_sign :: "real \<Rightarrow> fl" where
  "inf_of_sign x = (if x = 0 then NaN else if 0 < x then PosInf else NegInf)"

fun fl_neg :: "fl \<Rightarrow> fl" where
  "fl_neg (Fl x) = Fl (- x)"
| "fl_neg PosInf = NegInf"
| "fl_neg NegInf = PosInf"
| "fl_neg NaN = NaN"

fun fl_add :: "fl \<Rightarrow> fl \<Rightarrow> fl" where
  "fl_add (Fl x) (Fl y) = Fl (x + y)"
| "fl_add NaN _ = NaN"
| "fl_add _ NaN = NaN"
| "fl_add PosInf NegInf = NaN"
| "fl_add NegInf PosInf = NaN"
| "fl_add PosInf _ = PosInf"
| "fl_add _ PosInf = PosInf"
| "fl_add NegInf _ = NegInf"
| "fl_add _ NegInf = NegInf"

fun fl_sub :: "fl \<Rightarrow> fl \<Rightarrow> fl" where
  "fl_sub x y = fl_add x (fl_neg y)"

fun fl_mul :: "fl \<Rightarrow> fl \<Rightarrow> fl" where
  "fl_mul (Fl x) (Fl y) = Fl (x * y)"
| "fl_mul NaN _ = NaN"
| "fl_mul _ NaN = NaN"
| "fl_mul (Fl x) PosInf = inf_of_sign x"
| "fl_mul (Fl x) NegInf = inf_of_sign (- x)"
| "fl_mul PosInf (Fl y) = inf_of_sign y"
| "fl_mul NegInf (Fl y) = inf_of_sign (- y)"
| "fl_mul PosInf PosInf = PosInf"
| "fl_mul NegInf NegInf = PosInf"
| "fl_mul PosInf NegInf = NegInf"
| "fl_mul NegInf PosInf = NegInf"

fun fl_div :: "fl \<Rightarrow> fl \<Rightarrow> fl" where
  "fl_div (Fl x) (Fl y) = (if y = 0 then inf_of_sign x else Fl (x / y))"
| "fl_div NaN _ = NaN"
| "fl_div _ NaN = NaN"
| "fl_div (Fl x) PosInf = Fl 0"
| "fl_div (Fl x) NegInf = Fl 0"
| "fl_div PosInf (Fl y) = (if y < 0 then NegInf else PosInf)"
| "fl_div NegInf (Fl y) = (if y < 0 then PosInf else NegInf)"
| "fl_div PosInf PosInf = NaN"
| "fl_div PosInf NegInf = NaN"
| "fl_div NegInf PosInf = NaN"
| "fl_div NegInf NegInf = NaN"

text \<open>\<^verbatim>\<open>np.power(x, a)\<close> for an exponent \<open>a \<ge> 0\<close> (the alpha-decay parameter).\<close>

fun fl_power :: "fl \<Rightarrow> nat \<Rightarrow> fl" where
  "fl_power x 0 = Fl 1"
| "fl_power (Fl x) n = Fl (x ^ n)"
| "fl_power PosInf n = PosInf"
| "fl_power NegInf n = (if even n then PosInf else NegInf)"
| "fl_power NaN n = NaN"

fun fl_exp :: "fl \<Rightarrow> fl" where
  "fl_exp (Fl x) = Fl (exp x)"
| "fl_exp PosInf = PosInf"
| "fl_exp NegInf = Fl 0"
| "fl_exp NaN = NaN"

text \<open>\<^verbatim>\<open>x < y\<close> on doubles: every comparison with NaN is false.\<close>

fun fl_less :: "fl \<Rightarrow> fl \<Rightarrow> bool" where
  "fl_less (Fl x) (Fl y) = (x < y)"
| "fl_less NaN _ = False"
| "fl_less _ NaN = False"
| "fl_less _ NegInf = False"
| "fl_less NegInf _ = True"
| "fl_less PosInf _ = False"
| "fl_less _ PosInf = True"

fun fl_isnan :: "fl \<Rightarrow> bool" where
  "fl_isnan NaN = True"
| "fl_isnan _ = False"

fun fl_isinf :: "fl \<Rightarrow> bool" where
  "fl_isinf PosInf = True"
| "fl_isinf NegInf = True"
| "fl_isinf _ = False"

definition fl_sum :: "fl list \<Rightarrow> fl" where
  "fl_sum xs = foldl fl_add (Fl 0) xs"

fun fl_floor :: "fl \<Rightarrow> fl" where
  "fl_floor (Fl x) = Fl (of_int \<lfloor>x\<rfloor>)"
| "fl_floor x = x"

text \<open>\<^verbatim>\<open>x ** -1\<close> on an array of doubles.\<close>

fun fl_recip :: "fl \<Rightarrow> fl" where
  "fl_recip (Fl x) = (if x = 0 then PosInf else Fl (1 / x))"
| "fl_recip PosInf = Fl 0"
| "fl_recip NegInf = Fl 0"
| "fl_recip NaN = NaN"

text \<open>\<^verbatim>\<open>x ** y\<close> for a real exponent \<open>y \<ge> 0\<close> (C \<^verbatim>\<open>pow\<close>).\<close>

definition fl_powr :: "fl \<Rightarrow> real \<Rightarrow> fl" where
  "fl_powr x y =
     (if y = 0 then Fl 1
      else case x of
        Fl r \<Rightarrow> if 0 \<le> r then Fl (r powr y)
                else if y \<in> \<int> then Fl (r ^ nat \<lfloor>y\<rfloor>) else NaN
      | PosInf \<Rightarrow> PosInf
      | NegInf \<Rightarrow> if y \<in> \<int> \<and> odd \<lfloor>y\<rfloor> then NegInf else PosInf
      | NaN \<Rightarrow> NaN)"

text \<open>\<^verbatim>\<open>np.max\<close>: NaN if any entry is NaN, an error on an empty array.\<close>

definition fl_max2 :: "fl \<Rightarrow> fl \<Rightarrow> fl" where
  "fl_max2 x y = (if fl_isnan x \<or> fl_isnan y then NaN else if fl_less x y then y else x)"

definition np_max :: "fl list \<Rightarrow> error + fl" where
  "np_max xs = (case xs of [] \<Rightarrow> Inl EmptyReduction | x # r \<Rightarrow> Inr (foldl fl_max2 x r))"

type_synonym rmat = "real list list"
type_synonym fmat = "fl list list"

definition ncols :: "'a list list \<Rightarrow> nat" where
  "ncols A = (case A of [] \<Rightarrow> 0 | r # _ \<Rightarrow> length r)"

text \<open>
  Elementwise binary operation on two 2-d arrays under numpy's broadcasting rule: along
  each axis the extents agree or one of them is 1 (and is then repeated).
\<close>

definition bcast2 :: "('a \<Rightarrow> 'b \<Rightarrow> 'c) \<Rightarrow> 'a list list \<Rightarrow> 'b list list \<Rightarrow> error + 'c list list" where
  "bcast2 f A B =
     (let n1 = length A; m1 = ncols A; n2 = length B; m2 = ncols B in
      if (n1 = n2 \<or> n1 = 1 \<or> n2 = 1) \<and> (m1 = m2 \<or> m1 = 1 \<or> m2 = 1)
      then Inr (map (\<lambda>i. map (\<lambda>j. f (A ! (if n1 = 1 then 0 else i) ! (if m1 = 1 then 0 else j))
                                   (B ! (if n2 = 1 then 0 else i) ! (if m2 = 1 then 0 else j)))
                              [0 ..< (if m1 = 1 then m2 else m1)])
                    [0 ..< (if n1 = 1 then n2 else n1)])
      else Inl ShapeError)"

definition eye :: "nat \<Rightarrow> rmat" where
  "eye n = map (\<lambda>i. map (\<lambda>j. if i = j then 1 else 0) [0 ..< n]) [0 ..< n]"

text \<open>The same rule for two 1-d arrays.\<close>

definition bcast1 :: "('a \<Rightarrow> 'b \<Rightarrow> 'c) \<Rightarrow> 'a list \<Rightarrow> 'b list \<Rightarrow> error + 'c list" where
  "bcast1 f xs ys =
     (if length xs = length ys then Inr (map2 f xs ys)
      else if length xs = 1 then Inr (map (f (hd xs)) ys)
      else if length ys = 1 then Inr (map (\<lambda>x. f x (hd ys)) xs)
      else Inl ShapeError)"

definition columns :: "'a list list \<Rightarrow> 'a list list" where
  "columns A = map (\<lambda>j. map (\<lambda>r. r ! j) A) [0 ..< ncols A]"

text \<open>\<^verbatim>\<open>A @ B\<close> for 2-d arrays.\<close>

definition matmul :: "fmat \<Rightarrow> fmat \<Rightarrow> error + fmat" where
  "matmul A B =
     (if A \<noteq> [] \<and> ncols A \<noteq> length B then Inl ShapeError
      else Inr (map (\<lambda>r. map (\<lambda>c. fl_sum (map2 fl_mul r c)) (columns B)) A))"

section \<open>Bandwidth specification: \<^verbatim>\<open>validate_sigma\<close>\<close>

text \<open>
  What a caller may pass as \<^verbatim>\<open>sigma\<close>: a string, a number, a callable taking the
  distance matrix, or any other object (\<^verbatim>\<open>None\<close>, a list, ...). A resolved bandwidth
  is a scalar or a vector.
\<close>

datatype bandwidth = BwScalar fl | BwVector "fl list"

datatype sigma_spec =
    SigmaStr string
  | SigmaNum real
  | SigmaFun "rmat \<Rightarrow> bandwidth"
  | SigmaOther

definition VALID_SIGMAS :: "string list" where
  "VALID_SIGMAS = [''minmax'', ''median'', ''std'', ''knn'']"

fun is_known :: "sigma_spec \<Rightarrow> bool" where
  "is_known (SigmaStr s) = (s \<in> set VALID_SIGMAS)"
| "is_known (SigmaNum x) = True"
| "is_known (SigmaFun f) = True"
| "is_known SigmaOther = False"

definition validate_sigma :: "sigma_spec \<Rightarrow> error + unit" where
  "validate_sigma sigma = (if \<not> is_known sigma then Inl InvalidSigma else Inr ())"

section \<open>Kernel construction: \<^verbatim>\<open>gauss_kernel\<close>\<close>

text \<open>
  \<^verbatim>\<open>scipy.spatial.distance.cdist(A, B, 'euclidean')\<close>: refuses two point sets of
  different dimension.
\<close>

definition euclid :: "real list \<Rightarrow> real list \<Rightarrow> real" where
  "euclid a b = sqrt (sum_list (map2 (\<lambda>x y. (x - y)\<^sup>2) a b))"

definition cdist :: "rmat \<Rightarrow> rmat \<Rightarrow> error + rmat" where
  "cdist A B =
     (if A \<noteq> [] \<and> B \<noteq> [] \<and> ncols A \<noteq> ncols B then Inl ShapeError
      else Inr (map (\<lambda>a. map (\<lambda>b. euclid a b) B) A))"

text \<open>\<^verbatim>\<open>np.median\<close> of a 1-d array: NaN for an empty one.\<close>

definition median :: "real list \<Rightarrow> fl" where
  "median xs =
     (let s = sort xs; n = length xs in
      if n = 0 then NaN
      else if odd n then Fl (s ! (n div 2))
      else Fl ((s ! (n div 2 - 1) + s ! (n div 2)) / 2))"

definition fl_the :: "fl \<Rightarrow> real" where
  "fl_the x = (case x of Fl r \<Rightarrow> r | _ \<Rightarrow> 0)"

definition mean :: "real list \<Rightarrow> real" where
  "mean xs = sum_list xs / real (length xs)"

text \<open>The four named heuristics, each on the distance matrix \<open>D\<close>.\<close>

definition sigma_minmax :: "rmat \<Rightarrow> error + bandwidth" where
  "sigma_minmax D =
     (case bcast2 (\<lambda>d e. d + e * 10 ^ 15) D (eye (length D)) of
        Inl e \<Rightarrow> Inl e
      | Inr S \<Rightarrow>
          if S = [] then Inl EmptyReduction
          else let min_dev = map Min (map set (columns S)) in
               if min_dev = [] then Inl EmptyReduction
               else let eps_val = Max (set min_dev) in Inr (BwScalar (Fl (2 * eps_val\<^sup>2))))"

definition sigma_median :: "rmat \<Rightarrow> bandwidth" where
  "sigma_median D =
     (let ms = map median D in
      if ms = [] \<or> (\<exists>m \<in> set ms. fl_isnan m) then BwScalar NaN
      else BwScalar (median (map fl_the ms)))"

definition sigma_std :: "rmat \<Rightarrow> bandwidth" where
  "sigma_std D =
     (let ms = map mean (columns D); m = length ms in
      if D = [] \<or> m \<le> 1 then BwScalar NaN
      else BwScalar (Fl (sqrt (sum_list (map (\<lambda>x. (x - mean ms)\<^sup>2) ms) / real (m - 1)))))"

definition sigma_knn :: "rmat \<Rightarrow> nat \<Rightarrow> error + bandwidth" where
  "sigma_knn D k =
     (if k < length D then Inr (BwVector (map (\<lambda>c. Fl (sort c ! k)) (columns D)))
      else Inl IndexError)"

fun resolve_sigma :: "sigma_spec \<Rightarrow> rmat \<Rightarrow> nat \<Rightarrow> error + bandwidth" where
  "resolve_sigma (SigmaStr s) D k =
     (if s = ''minmax'' then sigma_minmax D
      else if s = ''median'' then Inr (sigma_median D)
      else if s = ''std'' then Inr (sigma_std D)
      else if s = ''knn'' then sigma_knn D k
      else Inl TypeError)"
| "resolve_sigma (SigmaNum x) D k = Inr (BwScalar (Fl x))"
| "resolve_sigma (SigmaFun f) D k = Inr (f D)"
| "resolve_sigma SigmaOther D k = Inl TypeError"

fun bw_scale :: "bandwidth \<Rightarrow> real \<Rightarrow> bandwidth" where
  "bw_scale (BwScalar s) fac = BwScalar (fl_mul s (Fl fac))"
| "bw_scale (BwVector v) fac = BwVector (map (\<lambda>s. fl_mul s (Fl fac)) v)"

text \<open>\<^verbatim>\<open>np.divide(D, sigma)\<close>: a vector bandwidth broadcasts as a single row.\<close>

fun divide_bw :: "rmat \<Rightarrow> bandwidth \<Rightarrow> error + fmat" where
  "divide_bw D (BwScalar s) = Inr (map (map (\<lambda>d. fl_div (Fl d) s)) D)"
| "divide_bw D (BwVector v) = bcast2 (\<lambda>d s. fl_div (Fl d) s) D [v]"

definition decay :: "nat \<Rightarrow> fl \<Rightarrow> fl" where
  "decay a x = fl_exp (fl_neg (fl_power x a))"

definition zero_nan :: "fl \<Rightarrow> fl" where
  "zero_nan x = (if fl_isnan x then Fl 0 else x)"

definition zero_small :: "fl \<Rightarrow> fl" where
  "zero_small x = (if fl_less x (Fl (1 / 1000)) then Fl 0 else x)"

definition symmetrize :: "fmat \<Rightarrow> fmat" where
  "symmetrize K =
     map (\<lambda>i. map (\<lambda>j. fl_div (fl_add (K ! i ! j) (K ! j ! i)) (Fl 2)) [0 ..< ncols K])
         [0 ..< length K]"

text \<open>The kernel before the final symmetrisation (lines 172-176).\<close>

definition thresholded :: "nat \<Rightarrow> fmat \<Rightarrow> fmat" where
  "thresholded a Q = map (map (\<lambda>x. zero_small (zero_nan (decay a x)))) Q"

definition gauss_kernel ::
  "rmat \<Rightarrow> rmat \<Rightarrow> sigma_spec \<Rightarrow> nat \<Rightarrow> nat \<Rightarrow> real \<Rightarrow> error + (fmat \<times> bandwidth)" where
  "gauss_kernel data1 data2 sigma k a fac =
     (case validate_sigma sigma of Inl e \<Rightarrow> Inl e | Inr _ \<Rightarrow>
      case cdist data1 data2 of Inl e \<Rightarrow> Inl e | Inr D \<Rightarrow>
      case resolve_sigma sigma D k of Inl e \<Rightarrow> Inl e | Inr s0 \<Rightarrow>
      let s = bw_scale s0 fac in
      case divide_bw D s of Inl e \<Rightarrow> Inl e | Inr Q \<Rightarrow>
      let K = thresholded a Q in
      Inr (if length K = ncols K then symmetrize K else K, s))"

definition square :: "nat \<Rightarrow> 'a list list \<Rightarrow> bool" where
  "square n K = (length K = n \<and> (\<forall>r \<in> set K. length r = n))"

text \<open>A resolved bandwidth fits \<open>n\<close> points: a scalar, or one value per point.\<close>

fun bw_fits :: "nat \<Rightarrow> bandwidth \<Rightarrow> bool" where
  "bw_fits n (BwScalar s) = True"
| "bw_fits n (BwVector v) = (length v = n)"

section \<open>Degree and sparsity: \<^verbatim>\<open>degrees\<close>\<close>

text \<open>Line 241 reads \<^verbatim>\<open>N = data.shape[1]\<close>: the number of columns of the data matrix.\<close>

definition degrees ::
  "rmat \<Rightarrow> sigma_spec \<Rightarrow> nat \<Rightarrow> nat \<Rightarrow> real \<Rightarrow> error + (fl list \<times> fl list \<times> bandwidth)" where
  "degrees data sigma k a fac =
     (case validate_sigma sigma of Inl e \<Rightarrow> Inl e | Inr _ \<Rightarrow>
      let N = ncols data in
      case gauss_kernel data data sigma k a fac of Inl e \<Rightarrow> Inl e | Inr (K, s) \<Rightarrow>
      let p = map fl_sum (columns K);
          d_hat = map (\<lambda>x. fl_div (fl_mul x (Fl (real N))) (fl_sum p)) p;
          s_hat = map (\<lambda>d. fl_div (Fl 1) d) d_hat
      in Inr (d_hat, s_hat, s))"

section \<open>Point budget: \<^verbatim>\<open>numpts\<close>\<close>

text \<open>
  The noise model is a scalar variance or one covariance matrix per point. Scalars are
  numpy doubles throughout. \<^verbatim>\<open>np.linalg.det\<close> is a parameter of the model.
\<close>

datatype noise = NoiseScalar real | NoiseLocal "fmat list"

definition scale_to_M :: "fl list \<Rightarrow> int \<Rightarrow> fl list" where
  "scale_to_M est M =
     map (\<lambda>x. fl_div (fl_mul x (Fl (of_int M))) (fl_add (fl_sum est) (Fl (1 / 10 ^ 17)))) est"

definition equalize_scalar :: "fl \<Rightarrow> fl list \<Rightarrow> real \<Rightarrow> bandwidth \<Rightarrow> nat \<Rightarrow> error + fl list" where
  "equalize_scalar const degree nc kernel_sigma dimn =
     (let w = (\<lambda>s. fl_powr (fl_div (fl_add (fl_power s 2) (Fl (nc\<^sup>2))) (Fl (2 * nc\<^sup>2)))
                            (real dimn / 2));
          diff = map (fl_sub const) degree
      in case kernel_sigma of
           BwScalar s \<Rightarrow> Inr (map (\<lambda>d. fl_mul d (w s)) diff)
         | BwVector v \<Rightarrow> bcast1 fl_mul diff (map w v))"

fun equalize_local ::
  "(fmat \<Rightarrow> error + fl) \<Rightarrow> fl \<Rightarrow> fl list \<Rightarrow> bandwidth \<Rightarrow> fmat list \<Rightarrow> nat list \<Rightarrow> error + fl list" where
  "equalize_local det const degree kernel_sigma covs [] = Inr []"
| "equalize_local det const degree kernel_sigma covs (i # rest) =
     (case (case kernel_sigma of
              BwScalar s \<Rightarrow> Inr s
            | BwVector v \<Rightarrow> if i < length v then Inr (v ! i) else Inl IndexError) of
        Inl e \<Rightarrow> Inl e
      | Inr sig \<Rightarrow>
          if length covs \<le> i then Inl IndexError
          else let c = covs ! i;
                   m = map (\<lambda>r. map (\<lambda>j. fl_add (Fl (if r = j then 1 else 0))
                                               (fl_div (c ! r ! j) (fl_mul (Fl 2) (fl_power sig 2))))
                                    [0 ..< ncols c]) [0 ..< length c]
               in case det m of
                    Inl e \<Rightarrow> Inl e
                  | Inr dt \<Rightarrow>
                      (case equalize_local det const degree kernel_sigma covs rest of
                         Inl e \<Rightarrow> Inl e
                       | Inr r \<Rightarrow> Inr (fl_mul (fl_sub const (degree ! i)) (fl_powr dt (1 / 2)) # r)))"

definition numpts ::
  "(fmat \<Rightarrow> error + fl) \<Rightarrow> fl list \<Rightarrow> noise \<Rightarrow> bandwidth \<Rightarrow> nat \<Rightarrow> int \<Rightarrow> bool \<Rightarrow> error + fl list" where
  "numpts det degree noise_cov kernel_sigma dimn M equalize =
     (let N = length degree in
      case np_max degree of Inl e \<Rightarrow> Inl e | Inr const \<Rightarrow>
      case (if equalize then
              (case (case noise_cov of
                       NoiseScalar nc \<Rightarrow> equalize_scalar const degree nc kernel_sigma dimn
                     | NoiseLocal covs \<Rightarrow> equalize_local det const degree kernel_sigma covs [0 ..< N]) of
                 Inl e \<Rightarrow> Inl e
               | Inr est \<Rightarrow>
                   Inr (if M \<noteq> 0 then map fl_floor (scale_to_M est M) else map fl_floor est))
            else
              (let M' = (if M = 0 then int N else M);
                   est = map (fl_sub const) degree
               in Inr (map fl_floor (scale_to_M est M')))) of
        Inl e \<Rightarrow> Inl e
      | Inr npts \<Rightarrow> Inr (if fl_sum npts = Fl 0 then replicate N (Fl 1) else npts))"



section \<open>Sampling: \<^verbatim>\<open>generate\<close>\<close>

text \<open>
  \<^verbatim>\<open>labels_out = [labels_out, new_labels]\<close> nests the previous value in a new
  two-element list at every step.
\<close>

datatype 'l nested = NEmpty | NPair "'l nested" "'l list"

text \<open>
  The scalar branch (lines 469-481): the loop, then \<^verbatim>\<open>rep_centers.T\<close> on a Python
  list, which has no such attribute.
\<close>

fun gen_scalar_loop ::
  "(nat \<times> real list) list \<Rightarrow> int list \<Rightarrow> 'l list \<Rightarrow> real list list \<Rightarrow> 'l nested
   \<Rightarrow> error + (real list list \<times> 'l nested)" where
  "gen_scalar_loop [] npts labels rep_centers labels_out = Inr (rep_centers, labels_out)"
| "gen_scalar_loop ((i, row) # rest) npts labels rep_centers labels_out =
     (if length npts \<le> i then Inl IndexError
      else if npts ! i < 0 then Inl NegativeCount
      else let n = nat (npts ! i);
               rep_centers' = rep_centers @ [concat (replicate n row)]
           in if labels \<noteq> [] then
                (if length labels \<le> i then Inl IndexError
                 else gen_scalar_loop rest npts labels rep_centers'
                        (NPair labels_out (replicate n (labels ! i))))
              else gen_scalar_loop rest npts labels rep_centers' labels_out)"

text \<open>
  \<^verbatim>\<open>np.tile(C, n).reshape(-1, *C.shape)\<close>: the rows of \<open>C\<close>, each repeated \<open>n\<close>
  times side by side, read in row-major order and cut into arrays of the shape of \<open>C\<close>.
\<close>

definition tile_reshape :: "fmat \<Rightarrow> nat \<Rightarrow> error + fmat list" where
  "tile_reshape C n =
     (let r = length C; c = ncols C; flat = concat (map (\<lambda>row. concat (replicate n row)) C) in
      if r * c = 0 then Inl ShapeError
      else Inr (map (\<lambda>m. map (\<lambda>i. take c (drop ((m * r + i) * c) flat)) [0 ..< r]) [0 ..< n]))"

fun gen_local_loop ::
  "(nat \<times> real list) list \<Rightarrow> int list \<Rightarrow> fmat list \<Rightarrow> 'l list \<Rightarrow> rmat list \<Rightarrow> fmat list list
   \<Rightarrow> 'l nested \<Rightarrow> error + (rmat list \<times> fmat list list \<times> 'l nested)" where
  "gen_local_loop [] npts noise_cov labels rep_centers rep_cov labels_out =
     Inr (rep_centers, rep_cov, labels_out)"
| "gen_local_loop ((i, row) # rest) npts noise_cov labels rep_centers rep_cov labels_out =
     (if length npts \<le> i then Inl IndexError
      else if npts ! i < 0 then Inl NegativeCount
      else if labels \<noteq> [] \<and> length labels \<le> i then Inl IndexError
      else let n = nat (npts ! i);
               new_center = map (replicate n) row;
               labels_out' = (if labels \<noteq> [] then NPair labels_out (replicate n (labels ! i))
                              else labels_out);
               rep_centers' = (if length row * n \<noteq> 0 then rep_centers @ [new_center]
                               else rep_centers)
           in if n \<noteq> 0 then
                (if length noise_cov \<le> i then Inl IndexError
                 else case tile_reshape (noise_cov ! i) n of
                        Inl e \<Rightarrow> Inl e
                      | Inr cov \<Rightarrow> gen_local_loop rest npts noise_cov labels rep_centers'
                                     (rep_cov @ [cov]) labels_out')
              else gen_local_loop rest npts noise_cov labels rep_centers' rep_cov labels_out')"

definition hstack :: "'a list list list \<Rightarrow> error + 'a list list" where
  "hstack blocks =
     (if blocks = [] then Inl EmptyReduction
      else Inr (map (\<lambda>i. concat (map (\<lambda>b. b ! i) blocks)) [0 ..< length (hd blocks)]))"

definition vstack :: "'a list list \<Rightarrow> error + 'a list" where
  "vstack blocks = (if blocks = [] then Inl EmptyReduction else Inr (concat blocks))"

text \<open>
  The final loop of the covariance branch; \<^verbatim>\<open>np.random.multivariate_normal\<close> is the
  parameter \<open>mvn\<close>, given the number of the draw, the centre and the covariance.
\<close>

fun draw_all ::
  "(nat \<Rightarrow> real list \<Rightarrow> fmat \<Rightarrow> error + real list) \<Rightarrow> (nat \<times> real list) list \<Rightarrow> fmat list
   \<Rightarrow> error + rmat" where
  "draw_all mvn [] rep_cov = Inr []"
| "draw_all mvn ((i, row) # rest) rep_cov =
     (if length rep_cov \<le> i then Inl IndexError
      else case mvn i row (rep_cov ! i) of
             Inl e \<Rightarrow> Inl e
           | Inr pt \<Rightarrow> (case draw_all mvn rest rep_cov of
                          Inl e \<Rightarrow> Inl e
                        | Inr pts \<Rightarrow> Inr (pt # pts)))"

definition enumerate_from0 :: "'a list \<Rightarrow> (nat \<times> 'a) list" where
  "enumerate_from0 xs = zip [0 ..< length xs] xs"

text \<open>\<^verbatim>\<open>npts.astype(int)\<close>: truncation; a non-finite double becomes the least 64-bit integer.\<close>

definition astype_int :: "fl \<Rightarrow> int" where
  "astype_int x = (case x of Fl r \<Rightarrow> (if 0 \<le> r then \<lfloor>r\<rfloor> else \<lceil>r\<rceil>) | _ \<Rightarrow> - (2 ^ 63))"

definition generate ::
  "(nat \<Rightarrow> real list \<Rightarrow> fmat \<Rightarrow> error + real list) \<Rightarrow> rmat \<Rightarrow> fl list \<Rightarrow> noise \<Rightarrow> 'l list
   \<Rightarrow> error + (rmat \<times> 'l nested)" where
  "generate mvn data npts0 noise_cov labels =
     (let npts = map astype_int npts0 in
      case noise_cov of
        NoiseScalar c \<Rightarrow>
          (case gen_scalar_loop (enumerate_from0 data) npts labels [] NEmpty of
             Inl e \<Rightarrow> Inl e
           | Inr (rep_centers, labels_out) \<Rightarrow> Inl AttributeError)
      | NoiseLocal covs \<Rightarrow>
          (case gen_local_loop (enumerate_from0 data) npts covs labels [] [] NEmpty of
             Inl e \<Rightarrow> Inl e
           | Inr (rep_centers, rep_cov, labels_out) \<Rightarrow>
               (case vstack rep_cov of Inl e \<Rightarrow> Inl e | Inr rep_cov' \<Rightarrow>
                case hstack rep_centers of Inl e \<Rightarrow> Inl e | Inr rep_centers' \<Rightarrow>
                case draw_all mvn (enumerate_from0 (columns rep_centers')) rep_cov' of
                  Inl e \<Rightarrow> Inl e
                | Inr random_points \<Rightarrow> Inr (random_points, labels_out))))"

section \<open>Diffusion: \<^verbatim>\<open>matlab_percentile\<close>, \<^verbatim>\<open>magic\<close>, \<^verbatim>\<open>mgc_magic\<close>\<close>

text \<open>\<^verbatim>\<open>np.sort\<close> of a 1-d array: ascending, NaN last.\<close>

definition fl_before :: "fl \<Rightarrow> fl \<Rightarrow> bool" where
  "fl_before x y = (\<not> fl_isnan x \<and> (fl_isnan y \<or> \<not> fl_less y x))"

fun fl_insort :: "fl \<Rightarrow> fl list \<Rightarrow> fl list" where
  "fl_insort x [] = [x]"
| "fl_insort x (y # ys) = (if fl_before x y then x # y # ys else y # fl_insort x ys)"

definition np_sort :: "fl list \<Rightarrow> fl list" where
  "np_sort xs = foldr fl_insort xs []"

text \<open>
  \<^verbatim>\<open>np.interp(x, xp, fp, left, right)\<close> at one point \<open>x\<close>, for a non-empty increasing
  \<open>xp\<close>: linear interpolation between the two neighbouring sample points.
\<close>

definition np_interp :: "real \<Rightarrow> real list \<Rightarrow> fl list \<Rightarrow> fl \<Rightarrow> fl \<Rightarrow> fl" where
  "np_interp x xp fp left right =
     (if x < hd xp then left
      else if last xp < x then right
      else let j = length (takeWhile (\<lambda>p. p \<le> x) xp) - 1 in
           if j = length xp - 1 \<or> xp ! j = x then fp ! j
           else fl_add (fl_mul (fl_div (fl_sub (fp ! (j + 1)) (fp ! j)) (Fl (xp ! (j + 1) - xp ! j)))
                               (Fl (x - xp ! j)))
                       (fp ! j))"

definition matlab_percentile :: "fl list \<Rightarrow> real \<Rightarrow> error + fl" where
  "matlab_percentile in_data percentiles =
     (if in_data = [] then Inl IndexError
      else let data = np_sort in_data;
               n = length data;
               p_rank = map (\<lambda>i. 100 * (real i + 1 / 2) / real n) [0 ..< n]
           in Inr (np_interp percentiles p_rank data (hd data) (last data)))"

fun collect :: "(error + 'a) list \<Rightarrow> error + 'a list" where
  "collect [] = Inr []"
| "collect (Inl e # rest) = Inl e"
| "collect (Inr x # rest) = (case collect rest of Inl e \<Rightarrow> Inl e | Inr xs \<Rightarrow> Inr (x # xs))"

text \<open>\<^verbatim>\<open>np.apply_along_axis(matlab_percentile, 0, A, 95)\<close>: one value per column.\<close>

definition column_percentiles :: "fmat \<Rightarrow> error + fl list" where
  "column_percentiles A =
     (if A = [] \<or> ncols A = 0 then Inl EmptyReduction
      else collect (map (\<lambda>c. matlab_percentile c 95) (columns A)))"

fun diffuse :: "nat \<Rightarrow> fmat \<Rightarrow> fmat \<Rightarrow> error + fmat" where
  "diffuse 0 diffusion_operator data_imputed = Inr data_imputed"
| "diffuse (Suc n) diffusion_operator data_imputed =
     (case matmul diffusion_operator data_imputed of
        Inl e \<Rightarrow> Inl e
      | Inr d \<Rightarrow> diffuse n diffusion_operator d)"

text \<open>Lines 590-594: the diagonal matrix of inverse row sums, infinities set to 0.\<close>

definition diffusion_degree :: "fmat \<Rightarrow> fmat" where
  "diffusion_degree kern =
     (let inv = map (\<lambda>r. fl_recip (fl_sum r)) kern; n = length kern in
      map (\<lambda>i. map (\<lambda>j. let x = (if i = j then inv ! i else Fl 0)
                         in if fl_isinf x then Fl 0 else x) [0 ..< n]) [0 ..< n])"

text \<open>
  The inverse row sum that line 593 leaves on the diagonal for a kernel row of finite
  numbers (used to state the properties of the operator).
\<close>

definition inv_degree :: "real list \<Rightarrow> real" where
  "inv_degree r = (if sum_list r = 0 then 0 else 1 / sum_list r)"

definition magic :: "rmat \<Rightarrow> fmat \<Rightarrow> int \<Rightarrow> bool \<Rightarrow> error + (fmat \<times> fmat)" where
  "magic data0 kern t rescale =
     (let data = (if length data0 \<noteq> length kern \<and> ncols data0 = length kern
                  then columns data0 else data0)
      in case matmul (diffusion_degree kern) kern of Inl e \<Rightarrow> Inl e
         | Inr diffusion_operator \<Rightarrow>
      case diffuse (nat t) diffusion_operator (map (map Fl) data) of Inl e \<Rightarrow> Inl e
         | Inr data_imputed \<Rightarrow>
      if rescale then
        (case column_percentiles (map (map Fl) data) of Inl e \<Rightarrow> Inl e | Inr p0 \<Rightarrow>
         case column_percentiles data_imputed of Inl e \<Rightarrow> Inl e | Inr p1 \<Rightarrow>
         case bcast1 fl_div p0 p1 of Inl e \<Rightarrow> Inl e | Inr ratio \<Rightarrow>
         case bcast2 fl_mul data_imputed [ratio] of Inl e \<Rightarrow> Inl e
            | Inr scaled \<Rightarrow> Inr (scaled, diffusion_operator))
      else Inr (data_imputed, diffusion_operator))"

text \<open>
  \<^verbatim>\<open>mgc_magic\<close> also returns the warnings it sends to its logger (none without a
  logger); the calls it makes pass no logger on.
\<close>

definition mgc_magic ::
  "rmat \<Rightarrow> rmat \<Rightarrow> fl list \<Rightarrow> sigma_spec \<Rightarrow> nat \<Rightarrow> nat \<Rightarrow> real \<Rightarrow> int \<Rightarrow> bool \<Rightarrow> bool
   \<Rightarrow> string list \<times> (error + (fmat \<times> fmat \<times> fmat))" where
  "mgc_magic X Y s_hat sigma k a fac t magic_rescale logger =
     (if t = 0 \<and> logger then [''mgc_magic was passed t=0, no mgc_magic was performed''] else [],
      case gauss_kernel Y X sigma k a fac of Inl e \<Rightarrow> Inl e | Inr (new_to_old, sigma_nto) \<Rightarrow>
      case gauss_kernel X Y sigma k a fac of Inl e \<Rightarrow> Inl e | Inr (old_to_new, sigma_otn) \<Rightarrow>
      case bcast2 fl_mul new_to_old [s_hat] of Inl e \<Rightarrow> Inl e | Inr new_to_old_sparsity \<Rightarrow>
      case matmul new_to_old_sparsity old_to_new of Inl e \<Rightarrow> Inl e | Inr K0 \<Rightarrow>
      case bcast2 fl_add K0 (columns K0) of Inl e \<Rightarrow> Inl e | Inr K1 \<Rightarrow>
      let mgc_kernel = map (map (\<lambda>x. fl_div x (Fl 2))) K1 in
      case magic Y mgc_kernel t magic_rescale of Inl e \<Rightarrow> Inl e
         | Inr (new_data, mgc_diffusion_operator) \<Rightarrow>
             Inr (new_data, mgc_kernel, mgc_diffusion_operator))"

section \<open>Noise model and pipeline: \<^verbatim>\<open>local_covariance\<close>, \<^verbatim>\<open>sugar\<close>\<close>

text \<open>
  The library routines the pipeline calls are parameters: the neighbour query of
  scikit-learn, \<^verbatim>\<open>np.cov\<close>, \<^verbatim>\<open>np.linalg.det\<close> and the normal sampler.
\<close>

record lib =
  lib_kneighbors :: "rmat \<Rightarrow> nat \<Rightarrow> real list \<Rightarrow> error + nat list"
  lib_cov :: "rmat \<Rightarrow> fmat"
  lib_det :: "fmat \<Rightarrow> error + fl"
  lib_mvn :: "nat \<Rightarrow> real list \<Rightarrow> fmat \<Rightarrow> error + real list"

definition local_covariance :: "lib \<Rightarrow> rmat \<Rightarrow> nat \<Rightarrow> error + fmat list" where
  "local_covariance L data k =
     collect (map (\<lambda>row. case lib_kneighbors L data k row of
                            Inl e \<Rightarrow> Inl e
                          | Inr idx \<Rightarrow>
                              if \<exists>j \<in> set idx. length data \<le> j then Inl IndexError
                              else Inr (lib_cov L (map (\<lambda>j. data ! j) idx))) data)"

datatype noise_spec = NoiseKnn | NoiseNum real

text \<open>
  The ten values \<^verbatim>\<open>sugar\<close> is declared to return. Its \<^verbatim>\<open>return\<close> statement (line 903)
  evaluates the names \<^verbatim>\<open>Y, out_labels, d_hat, s_hat, sigma, ...\<close> from left to right;
  \<^verbatim>\<open>sigma\<close> is no parameter of \<^verbatim>\<open>sugar\<close>, is assigned nowhere in its body (the
  bandwidth is bound to \<^verbatim>\<open>degree_sigma\<close>) and is no module-level name, so looking it up
  raises NameError.
\<close>

type_synonym 'l sugar_result =
  "fmat \<times> 'l nested \<times> fl list \<times> fl list \<times> bandwidth \<times> fmat list \<times> fl list \<times> rmat \<times> fmat \<times> fmat"

definition sugar ::
  "lib \<Rightarrow> rmat \<Rightarrow> 'l list \<Rightarrow> noise_spec \<Rightarrow> nat \<Rightarrow> sigma_spec \<Rightarrow> nat \<Rightarrow> nat \<Rightarrow> real \<Rightarrow> int \<Rightarrow> bool
   \<Rightarrow> int \<Rightarrow> sigma_spec \<Rightarrow> nat \<Rightarrow> nat \<Rightarrow> real \<Rightarrow> bool \<Rightarrow> error + 'l sugar_result" where
  "sugar L data labels noise_cov noise_k degree_sigma degree_k degree_a degree_fac M equalize
         mgc_t mgc_sigma mgc_k mgc_a mgc_fac magic_rescale =
     (let dimn = ncols data in
      case degrees data degree_sigma degree_k degree_a degree_fac of Inl e \<Rightarrow> Inl e
         | Inr (d_hat, s_hat, degree_sigma') \<Rightarrow>
      case (case noise_cov of
              NoiseKnn \<Rightarrow> (case local_covariance L data noise_k of
                             Inl e \<Rightarrow> Inl e | Inr noise \<Rightarrow> Inr (NoiseLocal noise))
            | NoiseNum c \<Rightarrow> Inr (NoiseScalar c)) of Inl e \<Rightarrow> Inl e
         | Inr noise_cov' \<Rightarrow>
      case numpts (lib_det L) d_hat noise_cov' degree_sigma' dimn M equalize of Inl e \<Rightarrow> Inl e
         | Inr npts \<Rightarrow>
      case generate (lib_mvn L) data npts noise_cov' labels of Inl e \<Rightarrow> Inl e
         | Inr (random_points, out_labels) \<Rightarrow>
      case (if 0 < mgc_t
            then (case snd (mgc_magic data random_points s_hat mgc_sigma mgc_k mgc_a mgc_fac
                              mgc_t magic_rescale False) of
                    Inl e \<Rightarrow> Inl e
                  | Inr (Y, mgc_kernel, mgc_diffusion_operator) \<Rightarrow>
                      Inr (Y, mgc_kernel, mgc_diffusion_operator))
            else Inr (map (map Fl) random_points, [], [])) of Inl e \<Rightarrow> Inl e
         | Inr (Y, mgc_kernel, mgc_diffusion_operator) \<Rightarrow>
      Inl (NameError ''sigma''))"

section \<open>Invalid bandwidth specifications\<close>

text \<open>
  C5. A bandwidth spec that is neither one of the recognised names, nor callable, nor
  numeric makes \<^verbatim>\<open>gauss_kernel\<close> raise the error of \<^verbatim>\<open>validate_sigma\<close>, whatever the
  two point sets are: the check comes first, so no distance is computed, and the error
  is this one even for point sets that the distance computation would reject.
\<close>

theorem gauss_kernel_invalid_sigma:
  "(sigma = SigmaOther \<or> (\<exists>s. sigma = SigmaStr s \<and> s \<notin> set VALID_SIGMAS))
   \<Longrightarrow> gauss_kernel data1 data2 sigma k a fac = Inl InvalidSigma"
  by (auto simp add: gauss_kernel_def validate_sigma_def)

theorem gauss_kernel_invalid_sigma_witness:
  "gauss_kernel [[0, 0]] [[1]] (SigmaStr ''bogus'') 5 2 1 = Inl InvalidSigma
   \<and> cdist [[0, 0]] [[1]] = Inl ShapeError"
  using gauss_kernel_invalid_sigma [of "SigmaStr ''bogus''" "[[0, 0]]" "[[1]]" 5 2 1]
  by (simp add: VALID_SIGMAS_def cdist_def ncols_def)

section \<open>Self-affinity kernels\<close>

lemma fl_add_commute: "fl_add x y = fl_add y x"
  by (cases x; cases y) simp_all

lemma decay2_range:
  "\<exists>y. zero_small (zero_nan (decay 2 q)) = Fl y \<and> (y = 0 \<or> 1 / 1000 \<le> y) \<and> y \<le> 1"
  by (cases q) (auto simp add: zero_small_def zero_nan_def decay_def numeral_2_eq_2)

lemma ncols_square: "square n K \<Longrightarrow> ncols K = n"
  by (cases K) (auto simp add: square_def ncols_def)

lemma symmetrize_square: "square n K \<Longrightarrow> square n (symmetrize K)"
  by (auto simp add: symmetrize_def square_def ncols_square[unfolded square_def])

lemma symmetrize_nth:
  "square n K \<Longrightarrow> i < n \<Longrightarrow> j < n \<Longrightarrow>
   symmetrize K ! i ! j = fl_div (fl_add (K ! i ! j) (K ! j ! i)) (Fl 2)"
  using ncols_square[of n K] by (simp add: symmetrize_def square_def)

lemma cdist_self: "cdist data data = Inr (map (\<lambda>a. map (euclid a) data) data)"
  by (simp add: cdist_def)

lemma square_cdist: "square (length data) (map (\<lambda>a. map (euclid a) data) data)"
  by (simp add: square_def)

lemma divide_bw_square:
  assumes "square n D" and "bw_fits n s" and "divide_bw D s = Inr Q"
  shows "square n Q"
proof (cases s)
  case (BwScalar x)
  then show ?thesis using assms by (auto simp add: square_def)
next
  case (BwVector v)
  have nc: "ncols D = n" using assms(1) by (rule ncols_square)
  have len: "length D = n" using assms(1) by (simp add: square_def)
  have lv: "ncols [v] = n" using assms(2) BwVector by (simp add: ncols_def)
  show ?thesis using assms(3) BwVector nc len lv
    by (auto simp add: bcast2_def Let_def square_def split: if_splits)
qed

lemma thresholded_square: "square n Q \<Longrightarrow> square n (thresholded a Q)"
  by (auto simp add: square_def thresholded_def)

lemma thresholded_nth:
  "square n Q \<Longrightarrow> i < n \<Longrightarrow> j < n \<Longrightarrow>
   thresholded a Q ! i ! j = zero_small (zero_nan (decay a (Q ! i ! j)))"
  by (simp add: square_def thresholded_def)

lemma gauss_kernel_self_shape:
  assumes "gauss_kernel data data sigma k a fac = Inr (K, s)" and "bw_fits (length data) s"
  shows "\<exists>D Q. cdist data data = Inr D \<and> divide_bw D s = Inr Q \<and> square (length data) Q
           \<and> K = symmetrize (thresholded a Q)"
proof -
  let ?D = "map (\<lambda>a. map (euclid a) data) data"
  from assms(1) obtain s0 Q where
    s: "s = bw_scale s0 fac" and q: "divide_bw ?D s = Inr Q"
    and k: "K = (if length (thresholded a Q) = ncols (thresholded a Q)
                 then symmetrize (thresholded a Q) else thresholded a Q)"
    by (auto simp add: gauss_kernel_def cdist_self Let_def split: sum.splits)
  have sq: "square (length data) Q"
    using square_cdist assms(2) q by (rule divide_bw_square)
  then have "square (length data) (thresholded a Q)" by (rule thresholded_square)
  then have "length (thresholded a Q) = ncols (thresholded a Q)"
    using ncols_square[of "length data" "thresholded a Q"] by (simp add: square_def)
  with k have "K = symmetrize (thresholded a Q)" by simp
  with q sq show ?thesis by (auto simp add: cdist_self)
qed

text \<open>
  C6. A kernel that \<^verbatim>\<open>gauss_kernel\<close> builds from a point set against itself, with
  the Gaussian decay \<open>a = 2\<close> and a bandwidth that is a scalar or one value per point, is
  a square symmetric matrix with every entry a number in \<open>[0, 1]\<close>. It is the
  symmetrisation of the matrix in which every NaN and every value below \<open>1e-3\<close> has
  been replaced by 0: each entry of that matrix is 0 or at least \<open>1e-3\<close>.
\<close>

theorem gauss_kernel_self_affinity:
  assumes "gauss_kernel data data sigma k 2 fac = Inr (K, s)" and "bw_fits (length data) s"
  shows "square (length data) K
       \<and> (\<forall>i < length data. \<forall>j < length data.
            K ! i ! j = K ! j ! i \<and> (\<exists>x. K ! i ! j = Fl x \<and> 0 \<le> x \<and> x \<le> 1))
       \<and> (\<exists>D Q. cdist data data = Inr D \<and> divide_bw D s = Inr Q
            \<and> K = symmetrize (thresholded 2 Q)
            \<and> (\<forall>i < length data. \<forall>j < length data.
                 \<exists>y. thresholded 2 Q ! i ! j = Fl y \<and> (y = 0 \<or> 1 / 1000 \<le> y)
                   \<and> (fl_isnan (decay 2 (Q ! i ! j)) \<longrightarrow> y = 0)
                   \<and> (fl_less (decay 2 (Q ! i ! j)) (Fl (1 / 1000)) \<longrightarrow> y = 0)))"
proof -
  let ?n = "length data"
  from gauss_kernel_self_shape[OF assms] obtain D Q where
    d: "cdist data data = Inr D" and q: "divide_bw D s = Inr Q" and sq: "square ?n Q"
    and k: "K = symmetrize (thresholded 2 Q)" by blast
  let ?T = "thresholded 2 Q"
  have sqT: "square ?n ?T" using sq by (rule thresholded_square)
  have ent: "\<exists>y. ?T ! i ! j = Fl y \<and> (y = 0 \<or> 1 / 1000 \<le> y) \<and> y \<le> 1
               \<and> (fl_isnan (decay 2 (Q ! i ! j)) \<longrightarrow> y = 0)
               \<and> (fl_less (decay 2 (Q ! i ! j)) (Fl (1 / 1000)) \<longrightarrow> y = 0)"
    if "i < ?n" "j < ?n" for i j
  proof -
    have "?T ! i ! j = zero_small (zero_nan (decay 2 (Q ! i ! j)))"
      using sq that by (rule thresholded_nth)
    moreover obtain y where "zero_small (zero_nan (decay 2 (Q ! i ! j))) = Fl y"
      "y = 0 \<or> 1 / 1000 \<le> y" "y \<le> 1" using decay2_range by blast
    ultimately show ?thesis
      by (cases "decay 2 (Q ! i ! j)") (auto simp add: zero_small_def zero_nan_def)
  qed
  have sqK: "square ?n K" unfolding k using sqT by (rule symmetrize_square)
  have sym: "K ! i ! j = K ! j ! i \<and> (\<exists>x. K ! i ! j = Fl x \<and> 0 \<le> x \<and> x \<le> 1)"
    if i: "i < ?n" and j: "j < ?n" for i j
  proof -
    have kij: "K ! i ! j = fl_div (fl_add (?T ! i ! j) (?T ! j ! i)) (Fl 2)"
      unfolding k using sqT i j by (rule symmetrize_nth)
    have kji: "K ! j ! i = fl_div (fl_add (?T ! j ! i) (?T ! i ! j)) (Fl 2)"
      unfolding k using sqT j i by (rule symmetrize_nth)
    from ent[OF i j] obtain y1 where y1: "?T ! i ! j = Fl y1" "0 \<le> y1" "y1 \<le> 1" by auto
    from ent[OF j i] obtain y2 where y2: "?T ! j ! i = Fl y2" "0 \<le> y2" "y2 \<le> 1" by auto
    define m where "m = (y1 + y2) / 2"
    have a: "K ! i ! j = Fl m" using kij y1 y2 by (simp add: m_def)
    have b: "K ! j ! i = Fl m" using kji y1 y2 by (simp add: m_def add.commute)
    have c: "0 \<le> m" "m \<le> 1" using y1 y2 by (simp_all add: m_def)
    show ?thesis using a b c by simp
  qed
  show ?thesis using sqK sym d q k ent by blast
qed


theorem gauss_kernel_self_affinity_witness:
  "gauss_kernel [[0], [0]] [[0], [0]] (SigmaStr ''knn'') 1 2 1
     = Inr ([[Fl 0, Fl 0], [Fl 0, Fl 0]], BwVector [Fl 0, Fl 0])
   \<and> bw_fits (length [[0::real], [0]]) (BwVector [Fl 0, Fl 0])
   \<and> square (length [[0::real], [0]]) [[Fl 0, Fl 0], [Fl 0, Fl 0]]"
proof -
  have h1: "gauss_kernel [[0], [0]] [[0], [0]] (SigmaStr ''knn'') 1 2 1
     = Inr ([[Fl 0, Fl 0], [Fl 0, Fl 0]], BwVector [Fl 0, Fl 0])"
    by (simp add: gauss_kernel_def validate_sigma_def VALID_SIGMAS_def cdist_def ncols_def
        euclid_def sigma_knn_def columns_def bcast2_def Let_def thresholded_def decay_def
        zero_nan_def zero_small_def symmetrize_def upt_rec numeral_2_eq_2)
  have h2: "bw_fits (length [[0::real], [0]]) (BwVector [Fl 0, Fl 0])" by simp
  from gauss_kernel_self_affinity [OF h1 h2] h1 h2 show ?thesis by blast
qed

section \<open>The min-max bandwidth on rectangular distance matrices\<close>

lemma ncols_map_rows: "A \<noteq> [] \<Longrightarrow> ncols (map (\<lambda>a. map (f a) B) A) = length B"
  by (cases A) (simp_all add: ncols_def)

lemma length_eye: "length (eye n) = n"
  by (simp add: eye_def)

lemma ncols_eye: "ncols (eye n) = n"
  by (cases n) (simp_all add: eye_def ncols_def upt_conv_Cons del: upt_Suc)

lemma ncols_map_upt: "0 < n \<Longrightarrow> ncols (map (\<lambda>i. map (g i) [0 ..< m]) [0 ..< n]) = m"
  by (simp add: ncols_def upt_conv_Cons)

lemma sigma_minmax_shape_error:
  assumes "length D \<noteq> ncols D" and "length D \<noteq> 1" and "ncols D \<noteq> 1"
  shows "sigma_minmax D = Inl ShapeError"
  using assms by (simp add: sigma_minmax_def bcast2_def length_eye ncols_eye)

lemma sigma_minmax_returns:
  assumes "0 < length D" and "0 < ncols D"
    and "length D = ncols D \<or> length D = 1 \<or> ncols D = 1"
  shows "\<exists>x. sigma_minmax D = Inr (BwScalar (Fl x))"
proof -
  let ?n = "length D" and ?m = "ncols D"
  let ?S = "map (\<lambda>i. map (\<lambda>j. D ! (if ?n = 1 then 0 else i) ! (if ?m = 1 then 0 else j)
                               + eye ?n ! (if ?n = 1 then 0 else i) ! (if ?n = 1 then 0 else j) * 10 ^ 15)
                     [0 ..< (if ?m = 1 then ?n else ?m)]) [0 ..< ?n]"
  have b: "bcast2 (\<lambda>d e. d + e * 10 ^ 15) D (eye ?n) = Inr ?S"
    using assms(3) by (auto simp add: bcast2_def length_eye ncols_eye Let_def)
  have s: "?S \<noteq> []" using assms(1) by simp
  have "ncols ?S = (if ?m = 1 then ?n else ?m)" using assms(1) by (rule ncols_map_upt)
  then have "0 < ncols ?S" using assms(1,2) by simp
  then have c: "map Min (map set (columns ?S)) \<noteq> []" by (simp add: columns_def)
  show ?thesis unfolding sigma_minmax_def b using s c by (simp add: Let_def)
qed

text \<open>
  C10 as amended. For two non-empty point sets of the same dimension, of \<open>N\<close> and \<open>M\<close>
  points, \<^verbatim>\<open>gauss_kernel\<close> with the min-max bandwidth fails with a shape error when
  \<open>N \<noteq> M\<close> and neither is 1; when \<open>N = M\<close>, or \<open>N = 1\<close>, or \<open>M = 1\<close>, the sum of the
  distance matrix and the scaled identity is defined (by broadcasting in the last two
  cases) and the call returns a kernel with a scalar bandwidth.
\<close>

theorem minmax_rectangular:
  assumes "data1 \<noteq> []" and "data2 \<noteq> []" and "ncols data1 = ncols data2"
  shows "(length data1 \<noteq> length data2 \<and> length data1 \<noteq> 1 \<and> length data2 \<noteq> 1
            \<longrightarrow> gauss_kernel data1 data2 (SigmaStr ''minmax'') k a fac = Inl ShapeError)
       \<and> (length data1 = length data2 \<or> length data1 = 1 \<or> length data2 = 1
            \<longrightarrow> (\<exists>K x. gauss_kernel data1 data2 (SigmaStr ''minmax'') k a fac
                        = Inr (K, BwScalar x)))"
proof -
  let ?D = "map (\<lambda>a. map (euclid a) data2) data1"
  have cd: "cdist data1 data2 = Inr ?D" using assms(3) by (simp add: cdist_def)
  have v: "validate_sigma (SigmaStr ''minmax'') = Inr ()"
    by (simp add: validate_sigma_def VALID_SIGMAS_def)
  have n: "length ?D = length data1" by simp
  have m: "ncols ?D = length data2" using assms(1) by (rule ncols_map_rows)
  have bad: "gauss_kernel data1 data2 (SigmaStr ''minmax'') k a fac = Inl ShapeError"
    if "length data1 \<noteq> length data2" "length data1 \<noteq> 1" "length data2 \<noteq> 1"
  proof -
    have "sigma_minmax ?D = Inl ShapeError"
      using that n m by (intro sigma_minmax_shape_error) simp_all
    then show ?thesis by (simp add: gauss_kernel_def v cd)
  qed
  have good: "\<exists>K x. gauss_kernel data1 data2 (SigmaStr ''minmax'') k a fac = Inr (K, BwScalar x)"
    if "length data1 = length data2 \<or> length data1 = 1 \<or> length data2 = 1"
  proof -
    have "\<exists>x. sigma_minmax ?D = Inr (BwScalar (Fl x))"
      using that n m assms(1,2) by (intro sigma_minmax_returns) simp_all
    then obtain x where "sigma_minmax ?D = Inr (BwScalar (Fl x))" by blast
    then show ?thesis by (simp add: gauss_kernel_def v cd Let_def)
  qed
  show ?thesis using bad good by blast
qed

theorem minmax_rectangular_witness:
  "gauss_kernel [[0], [0], [0]] [[0], [0]] (SigmaStr ''minmax'') 5 2 1 = Inl ShapeError
   \<and> (\<exists>K x. gauss_kernel [[0], [0]] [[0], [0]] (SigmaStr ''minmax'') 5 2 1 = Inr (K, BwScalar x))"
  using minmax_rectangular [of "[[0], [0], [0]]" "[[0], [0]]" 5 2 1]
        minmax_rectangular [of "[[0], [0]]" "[[0], [0]]" 5 2 1]
  by (simp add: ncols_def)

theorem minmax_rectangular_counterexample:
  "gauss_kernel [[0]] [[0], [0]] (SigmaStr ''minmax'') 5 2 1
     = Inr ([[Fl 1, Fl 1]], BwScalar (Fl (2 * 10 ^ 30)))"
  by (simp add: gauss_kernel_def validate_sigma_def VALID_SIGMAS_def cdist_def ncols_def
      euclid_def sigma_minmax_def eye_def columns_def bcast2_def Let_def thresholded_def
      decay_def zero_nan_def zero_small_def symmetrize_def upt_rec numeral_2_eq_2)

section \<open>The diffusion operator\<close>

lemma foldl_fl_add_Fl: "foldl fl_add (Fl a) (map Fl xs) = Fl (a + sum_list xs)"
  by (induction xs arbitrary: a) (simp_all add: add.assoc)

lemma fl_sum_Fl: "fl_sum (map Fl xs) = Fl (sum_list xs)"
  by (simp add: fl_sum_def foldl_fl_add_Fl)

lemma map2_fl_mul_Fl: "map2 fl_mul (map Fl xs) (map Fl ys) = map Fl (map2 (*) xs ys)"
proof (induction xs arbitrary: ys)
  case Nil
  then show ?case by simp
next
  case (Cons x xs)
  then show ?case by (cases ys) simp_all
qed

lemma sum_list_delta:
  assumes "i < n" and "length col = n"
  shows "sum_list (map2 (*) (map (\<lambda>j. if i = j then w else 0) [0 ..< n]) col) = w * (col ! i :: real)"
proof -
  have "map2 (*) (map (\<lambda>j. if i = j then w else 0) [0 ..< n]) col
          = map (\<lambda>j. if j = i then w * col ! j else 0) [0 ..< n]"
    using assms(2) by (intro nth_equalityI) auto
  then have "sum_list (map2 (*) (map (\<lambda>j. if i = j then w else 0) [0 ..< n]) col)
          = (\<Sum>j \<in> {0 ..< n}. if j = i then w * col ! j else 0)"
    by (simp add: interv_sum_list_conv_sum_set_nat)
  also have "\<dots> = w * col ! i" using assms(1) by simp
  finally show ?thesis .
qed

lemma diffusion_degree_Fl:
  "diffusion_degree (map (map Fl) R)
     = map (map Fl) (map (\<lambda>i. map (\<lambda>j. if i = j then inv_degree (R ! i) else 0) [0 ..< length R])
                         [0 ..< length R])"
  by (simp add: diffusion_degree_def inv_degree_def fl_sum_Fl Let_def)

lemma ncols_Fl: "\<forall>r \<in> set R. length r = m \<Longrightarrow> R \<noteq> [] \<Longrightarrow> ncols (map (map Fl) R) = m"
  by (cases R) (simp_all add: ncols_def)

lemma length_columns_Fl:
  "\<forall>r \<in> set R. length r = m \<Longrightarrow> R \<noteq> [] \<Longrightarrow> length (columns (map (map Fl) R)) = m"
  by (simp add: columns_def ncols_Fl)

lemma columns_Fl_nth:
  assumes "\<forall>r \<in> set R. length r = m" and "R \<noteq> []" and "c < m"
  shows "columns (map (map Fl) R) ! c = map Fl (map (\<lambda>r. r ! c) R)"
proof -
  have nc: "ncols (map (map Fl) R) = m" using assms(1,2) by (rule ncols_Fl)
  have "columns (map (map Fl) R) ! c = map (\<lambda>r. r ! c) (map (map Fl) R)"
    using assms(3) by (simp add: columns_def nc)
  also have "\<dots> = map Fl (map (\<lambda>r. r ! c) R)"
    using assms(1,3) by (simp add: comp_def)
  finally show ?thesis .
qed

lemma operator_rows:
  assumes rect: "\<forall>r \<in> set R. length r = m"
  shows "matmul (diffusion_degree (map (map Fl) R)) (map (map Fl) R)
           = Inr (map (\<lambda>r. map (\<lambda>x. Fl (inv_degree r * x)) r) R)"
proof (cases "R = []")
  case True
  then show ?thesis by (simp add: matmul_def diffusion_degree_def)
next
  case False
  let ?n = "length R"
  let ?K = "map (map Fl) R"
  let ?row = "\<lambda>i. map (\<lambda>j. if i = j then inv_degree (R ! i) else 0) [0 ..< ?n]"
  let ?W = "map ?row [0 ..< ?n]"
  have n: "0 < ?n" using False by simp
  have ncW: "ncols (map (map Fl) ?W) = ?n" using n by (simp add: ncols_def upt_conv_Cons)
  have shape: "\<not> (map (map Fl) ?W \<noteq> [] \<and> ncols (map (map Fl) ?W) \<noteq> length ?K)"
    using ncW by simp
  have lc: "length (columns ?K) = m" using rect False by (rule length_columns_Fl)
  have entry: "fl_sum (map2 fl_mul (map Fl (?row i)) (columns ?K ! c)) = Fl (inv_degree (R ! i) * (R ! i ! c))"
    if i: "i < ?n" and c: "c < m" for i c
  proof -
    have col: "columns ?K ! c = map Fl (map (\<lambda>r. r ! c) R)"
      using rect False c by (rule columns_Fl_nth)
    have "fl_sum (map2 fl_mul (map Fl (?row i)) (columns ?K ! c))
            = fl_sum (map Fl (map2 (*) (?row i) (map (\<lambda>r. r ! c) R)))"
      by (simp only: col map2_fl_mul_Fl)
    also have "\<dots> = Fl (sum_list (map2 (*) (?row i) (map (\<lambda>r. r ! c) R)))"
      by (rule fl_sum_Fl)
    also have "sum_list (map2 (*) (?row i) (map (\<lambda>r. r ! c) R))
            = inv_degree (R ! i) * (map (\<lambda>r. r ! c) R ! i)"
      using i by (intro sum_list_delta) simp_all
    also have "map (\<lambda>r. r ! c) R ! i = R ! i ! c" using i by simp
    finally show ?thesis .
  qed
  have rowi: "map (\<lambda>c. fl_sum (map2 fl_mul (map Fl (?row i)) c)) (columns ?K)
            = map (\<lambda>x. Fl (inv_degree (R ! i) * x)) (R ! i)" if i: "i < ?n" for i
  proof (intro nth_equalityI)
    have li: "length (R ! i) = m" using rect i by simp
    show "length (map (\<lambda>c. fl_sum (map2 fl_mul (map Fl (?row i)) c)) (columns ?K))
            = length (map (\<lambda>x. Fl (inv_degree (R ! i) * x)) (R ! i))"
      using lc li by simp
    fix c assume "c < length (map (\<lambda>c. fl_sum (map2 fl_mul (map Fl (?row i)) c)) (columns ?K))"
    then have c: "c < m" using lc by simp
    have "map (\<lambda>c. fl_sum (map2 fl_mul (map Fl (?row i)) c)) (columns ?K) ! c
            = fl_sum (map2 fl_mul (map Fl (?row i)) (columns ?K ! c))"
      using c lc by simp
    also have "\<dots> = Fl (inv_degree (R ! i) * (R ! i ! c))" using i c by (rule entry)
    also have "\<dots> = map (\<lambda>x. Fl (inv_degree (R ! i) * x)) (R ! i) ! c" using c li by simp
    finally show "map (\<lambda>c. fl_sum (map2 fl_mul (map Fl (?row i)) c)) (columns ?K) ! c
            = map (\<lambda>x. Fl (inv_degree (R ! i) * x)) (R ! i) ! c" .
  qed
  have lhs: "map (\<lambda>r. map (\<lambda>c. fl_sum (map2 fl_mul r c)) (columns ?K)) (map (map Fl) ?W)
          = map (\<lambda>i. map (\<lambda>c. fl_sum (map2 fl_mul (map Fl (?row i)) c)) (columns ?K)) [0 ..< ?n]"
    by (simp add: comp_def)
  have rhs: "map (\<lambda>r. map (\<lambda>x. Fl (inv_degree r * x)) r) R
          = map (\<lambda>i. map (\<lambda>x. Fl (inv_degree (R ! i) * x)) (R ! i)) [0 ..< ?n]"
    by (intro nth_equalityI) simp_all
  have "map (\<lambda>r. map (\<lambda>c. fl_sum (map2 fl_mul r c)) (columns ?K)) (map (map Fl) ?W)
          = map (\<lambda>r. map (\<lambda>x. Fl (inv_degree r * x)) r) R"
    unfolding lhs rhs by (rule map_cong[OF refl], rule rowi) simp
  then show ?thesis
    unfolding diffusion_degree_Fl matmul_def using shape by simp
qed

lemma magic_operator:
  "magic data K t rescale = Inr (out, P) \<Longrightarrow> matmul (diffusion_degree K) K = Inr P"
  by (auto simp add: magic_def Let_def split: sum.splits if_splits)

text \<open>
  C7. For a kernel with finite entries (in particular a non-negative one), given as the
  rectangular real matrix \<open>R\<close>, the diffusion operator \<open>P\<close> that \<^verbatim>\<open>magic\<close> builds and
  returns has one row per kernel row; a row of \<open>P\<close> sums to 1 when the kernel row sum is
  not 0, and is the all-zero row (sum 0) when the kernel row sum is 0; no entry of \<open>P\<close>
  is NaN or infinite.
\<close>

theorem diffusion_operator_rows:
  assumes "\<forall>r \<in> set R. length r = m"
  shows "\<exists>P. matmul (diffusion_degree (map (map Fl) R)) (map (map Fl) R) = Inr P
           \<and> (\<forall>out P'. magic data (map (map Fl) R) t rescale = Inr (out, P') \<longrightarrow> P' = P)
           \<and> length P = length R
           \<and> (\<forall>i < length R.
                 (sum_list (R ! i) \<noteq> 0 \<longrightarrow> fl_sum (P ! i) = Fl 1)
               \<and> (sum_list (R ! i) = 0 \<longrightarrow> P ! i = replicate m (Fl 0) \<and> fl_sum (P ! i) = Fl 0)
               \<and> (\<forall>x \<in> set (P ! i). \<exists>y. x = Fl y))"
proof -
  let ?K = "map (map Fl) R"
  let ?P = "map (\<lambda>r. map (\<lambda>x. Fl (inv_degree r * x)) r) R"
  have op: "matmul (diffusion_degree ?K) ?K = Inr ?P" using assms by (rule operator_rows)
  have same: "P' = ?P" if "magic data ?K t rescale = Inr (out, P')" for out P'
    using magic_operator[OF that] op by simp
  have rows: "(sum_list (R ! i) \<noteq> 0 \<longrightarrow> fl_sum (?P ! i) = Fl 1)
               \<and> (sum_list (R ! i) = 0 \<longrightarrow> ?P ! i = replicate m (Fl 0) \<and> fl_sum (?P ! i) = Fl 0)
               \<and> (\<forall>x \<in> set (?P ! i). \<exists>y. x = Fl y)" if i: "i < length R" for i
  proof -
    let ?r = "R ! i"
    have li: "length ?r = m" using assms i by simp
    have pi: "?P ! i = map Fl (map (\<lambda>x. inv_degree ?r * x) ?r)" using i by simp
    have s: "fl_sum (?P ! i) = Fl (inv_degree ?r * sum_list ?r)"
      unfolding pi fl_sum_Fl by (simp add: sum_list_const_mult)
    have one: "fl_sum (?P ! i) = Fl 1" if "sum_list ?r \<noteq> 0"
      using that s by (simp add: inv_degree_def)
    have zero: "?P ! i = replicate m (Fl 0) \<and> fl_sum (?P ! i) = Fl 0" if "sum_list ?r = 0"
    proof -
      have "inv_degree ?r = 0" using that by (simp add: inv_degree_def)
      then have "?P ! i = map (\<lambda>x. Fl 0) ?r" using i by simp
      then show ?thesis using li s that by (simp add: map_replicate_const)
    qed
    have fin: "\<forall>x \<in> set (?P ! i). \<exists>y. x = Fl y" unfolding pi by auto
    show ?thesis using one zero fin by blast
  qed
  have len: "length ?P = length R" by simp
  have all_rows: "\<forall>i < length R.
                 (sum_list (R ! i) \<noteq> 0 \<longrightarrow> fl_sum (?P ! i) = Fl 1)
               \<and> (sum_list (R ! i) = 0 \<longrightarrow> ?P ! i = replicate m (Fl 0) \<and> fl_sum (?P ! i) = Fl 0)
               \<and> (\<forall>x \<in> set (?P ! i). \<exists>y. x = Fl y)"
    using rows by blast
  have same': "\<forall>out P'. magic data ?K t rescale = Inr (out, P') \<longrightarrow> P' = ?P"
    using same by blast
  from op same' len all_rows show ?thesis by blast
qed

theorem diffusion_operator_rows_witness:
  "magic [[1], [2]] (map (map Fl) [[1, 1], [0, 0]]) 1 False
     = Inr ([[Fl (3 / 2)], [Fl 0]], [[Fl (1 / 2), Fl (1 / 2)], [Fl 0, Fl 0]])
   \<and> fl_sum [Fl (1 / 2), Fl (1 / 2)] = Fl 1 \<and> fl_sum [Fl 0, Fl 0] = Fl 0"
proof -
  have m: "magic [[1], [2]] (map (map Fl) [[1, 1], [0, 0]]) 1 False
     = Inr ([[Fl (3 / 2)], [Fl 0]], [[Fl (1 / 2), Fl (1 / 2)], [Fl 0, Fl 0]])"
    by (simp add: magic_def matmul_def diffusion_degree_def ncols_def columns_def fl_sum_def
        Let_def upt_rec numeral_2_eq_2)
  have r: "\<forall>r \<in> set [[1, 1], [0, 0 :: real]]. length r = 2" by simp
  from diffusion_operator_rows [OF r, of "[[1], [2]]" 1 False] m
  obtain P where p: "P = [[Fl (1 / 2), Fl (1 / 2)], [Fl 0, Fl 0]]"
    and rows: "\<forall>i < length [[1, 1], [0, 0 :: real]].
                 (sum_list ([[1, 1], [0, 0 :: real]] ! i) \<noteq> 0 \<longrightarrow> fl_sum (P ! i) = Fl 1)
               \<and> (sum_list ([[1, 1], [0, 0 :: real]] ! i) = 0
                    \<longrightarrow> P ! i = replicate 2 (Fl 0) \<and> fl_sum (P ! i) = Fl 0)
               \<and> (\<forall>x \<in> set (P ! i). \<exists>y. x = Fl y)"
    by metis
  have "fl_sum (P ! 0) = Fl 1" using rows by fastforce
  moreover have "fl_sum (P ! 1) = Fl 0" using rows by fastforce
  ultimately show ?thesis using m p by simp
qed

section \<open>Zero diffusion steps\<close>

lemma ncols_diffusion_degree: "kern \<noteq> [] \<Longrightarrow> ncols (diffusion_degree kern) = length kern"
  by (cases kern) (simp_all add: diffusion_degree_def ncols_def Let_def upt_conv_Cons del: upt_Suc)

lemma matmul_diffusion_degree: "\<exists>P. matmul (diffusion_degree kern) kern = Inr P"
proof (cases "kern = []")
  case True
  then show ?thesis by (simp add: matmul_def diffusion_degree_def)
next
  case False
  then show ?thesis by (simp add: matmul_def ncols_diffusion_degree)
qed

lemma ncols_map_Fl: "ncols (map (map Fl) A) = ncols A"
  by (cases A) (simp_all add: ncols_def)

lemma map2_fl_div_self:
  "\<forall>p \<in> set ps. \<exists>y. p = Fl y \<and> y \<noteq> 0 \<Longrightarrow> map2 fl_div ps ps = replicate (length ps) (Fl 1)"
proof (induction ps)
  case Nil
  then show ?case by simp
next
  case (Cons p ps)
  then show ?case by auto
qed

lemma collect_length: "collect xs = Inr ys \<Longrightarrow> length ys = length xs"
proof (induction xs arbitrary: ys)
  case Nil
  then show ?case by simp
next
  case (Cons x xs)
  then show ?case by (cases x) (auto split: sum.splits)
qed

lemma column_percentiles_length:
  "column_percentiles A = Inr ps \<Longrightarrow> length ps = ncols A \<and> A \<noteq> [] \<and> 0 < ncols A"
  by (auto simp add: column_percentiles_def columns_def dest: collect_length split: if_splits)

lemma map2_as_upt:
  "length r = d \<Longrightarrow> length v = d \<Longrightarrow> map2 f r v = map (\<lambda>j. f (r ! j) (v ! j)) [0 ..< d]"
  by (intro nth_equalityI) simp_all

lemma bcast2_row:
  assumes rect: "\<forall>r \<in> set A. length r = ncols A" and ne: "A \<noteq> []" and lv: "length v = ncols A"
  shows "bcast2 f A [v] = Inr (map (\<lambda>r. map2 f r v) A)"
proof -
  let ?d = "ncols A" and ?n = "length A"
  let ?g = "\<lambda>i. map (\<lambda>j. f (A ! (if ?n = 1 then 0 else i) ! (if ?d = 1 then 0 else j))
                              ([v] ! (if length [v] = 1 then 0 else i) ! (if ?d = 1 then 0 else j))) [0 ..< ?d]"
  have row: "?g i = map2 f (A ! i) v" if i: "i < ?n" for i
  proof -
    have i0: "(if ?n = 1 then 0 else i) = i" using i by auto
    have li: "length (A ! i) = ?d" using rect i by simp
    have "?g i = map (\<lambda>j. f (A ! i ! j) (v ! j)) [0 ..< ?d]"
      unfolding i0 by (rule map_cong[OF refl]) auto
    also have "\<dots> = map2 f (A ! i) v" using li lv by (rule map2_as_upt[symmetric])
    finally show ?thesis .
  qed
  have "map ?g [0 ..< ?n] = map (\<lambda>i. map2 f (A ! i) v) [0 ..< ?n]"
    by (rule map_cong[OF refl], rule row) simp
  also have "\<dots> = map (\<lambda>r. map2 f r v) A" by (intro nth_equalityI) simp_all
  finally have eq: "map ?g [0 ..< ?n] = map (\<lambda>r. map2 f r v) A" .
  have nv: "ncols [v] = ?d" using lv by (simp add: ncols_def)
  have c: "(?n = length [v] \<or> ?n = 1 \<or> length [v] = 1) \<and> (?d = ?d \<or> ?d = 1 \<or> ?d = 1)" by simp
  have r: "(if ?n = 1 then length [v] else ?n) = ?n" by simp
  have d: "(if ?d = 1 then ?d else ?d) = ?d" by simp
  show ?thesis unfolding bcast2_def Let_def nv if_P[OF c] r d eq ..
qed

lemma map2_fl_mul_one: "map2 fl_mul (map Fl r) (replicate (length r) (Fl 1)) = map Fl r"
  by (induction r) simp_all

lemma scale_by_ones:
  assumes rect: "\<forall>r \<in> set A. length r = ncols A" and "A \<noteq> []"
  shows "bcast2 fl_mul (map (map Fl) A) [replicate (ncols A) (Fl 1)] = Inr (map (map Fl) A)"
proof -
  let ?X = "map (map Fl) A"
  have nc: "ncols ?X = ncols A" by (rule ncols_map_Fl)
  have "bcast2 fl_mul ?X [replicate (ncols A) (Fl 1)]
          = Inr (map (\<lambda>r. map2 fl_mul r (replicate (ncols A) (Fl 1))) ?X)"
    using assms by (intro bcast2_row) (simp_all add: nc)
  also have "map (\<lambda>r. map2 fl_mul r (replicate (ncols A) (Fl 1))) ?X = ?X"
  proof -
    have "map2 fl_mul (map Fl r) (replicate (ncols A) (Fl 1)) = map Fl r" if "r \<in> set A" for r
      using map2_fl_mul_one[of r] rect that by simp
    then show ?thesis by (simp add: comp_def cong: map_cong)
  qed
  finally show ?thesis .
qed

lemma magic_zero_plain:
  "\<exists>P. magic data kern 0 False
         = Inr (map (map Fl) (if length data \<noteq> length kern \<and> ncols data = length kern
                              then columns data else data), P)"
proof -
  obtain P where "matmul (diffusion_degree kern) kern = Inr P"
    using matmul_diffusion_degree by blast
  then show ?thesis by (simp add: magic_def Let_def)
qed

lemma magic_zero_rescaled:
  assumes keep: "length data = length kern \<or> ncols data \<noteq> length kern"
    and rect: "\<forall>r \<in> set data. length r = ncols data"
    and pc: "column_percentiles (map (map Fl) data) = Inr ps"
    and nz: "\<forall>p \<in> set ps. \<exists>y. p = Fl y \<and> y \<noteq> 0"
  shows "\<exists>P. magic data kern 0 True = Inr (map (map Fl) data, P)"
proof -
  obtain P where op: "matmul (diffusion_degree kern) kern = Inr P"
    using matmul_diffusion_degree by blast
  have sel: "(if length data \<noteq> length kern \<and> ncols data = length kern then columns data else data)
               = data" using keep by auto
  from column_percentiles_length[OF pc]
  have lp: "length ps = ncols data" and ne: "data \<noteq> []" by (simp_all add: ncols_map_Fl)
  have ratio: "bcast1 fl_div ps ps = Inr (replicate (ncols data) (Fl 1))"
    using map2_fl_div_self[OF nz] lp by (simp add: bcast1_def)
  have sc: "bcast2 fl_mul (map (map Fl) data) [replicate (ncols data) (Fl 1)]
              = Inr (map (map Fl) data)" using rect ne by (rule scale_by_ones)
  show ?thesis unfolding magic_def Let_def sel op by (simp add: pc ratio sc)
qed

text \<open>
  C8 as amended. With \<open>t = 0\<close> and rescaling off, \<^verbatim>\<open>magic\<close> returns the points
  unchanged when the data has as many rows as the kernel (or matches it in neither
  dimension), and returns the transposed data when only its column count equals the
  kernel's row count. With rescaling on, data that is not transposed is returned unchanged
  provided the 95th percentile of every column is a non-zero number.
\<close>

theorem magic_zero_steps:
  shows "(length data = length kern \<or> ncols data \<noteq> length kern
            \<longrightarrow> (\<exists>P. magic data kern 0 False = Inr (map (map Fl) data, P)))
       \<and> (length data \<noteq> length kern \<and> ncols data = length kern
            \<longrightarrow> (\<exists>P. magic data kern 0 False = Inr (map (map Fl) (columns data), P)))
       \<and> ((length data = length kern \<or> ncols data \<noteq> length kern)
            \<and> (\<forall>r \<in> set data. length r = ncols data)
            \<and> (\<exists>ps. column_percentiles (map (map Fl) data) = Inr ps
                      \<and> (\<forall>p \<in> set ps. \<exists>y. p = Fl y \<and> y \<noteq> 0))
            \<longrightarrow> (\<exists>P. magic data kern 0 True = Inr (map (map Fl) data, P)))"
proof -
  have a: "\<exists>P. magic data kern 0 False = Inr (map (map Fl) data, P)"
    if "length data = length kern \<or> ncols data \<noteq> length kern"
    using magic_zero_plain[of data kern] that by auto
  have b: "\<exists>P. magic data kern 0 False = Inr (map (map Fl) (columns data), P)"
    if "length data \<noteq> length kern \<and> ncols data = length kern"
    using magic_zero_plain[of data kern] that by auto
  have c: "\<exists>P. magic data kern 0 True = Inr (map (map Fl) data, P)"
    if "(length data = length kern \<or> ncols data \<noteq> length kern)
            \<and> (\<forall>r \<in> set data. length r = ncols data)
            \<and> (\<exists>ps. column_percentiles (map (map Fl) data) = Inr ps
                      \<and> (\<forall>p \<in> set ps. \<exists>y. p = Fl y \<and> y \<noteq> 0))"
    using that magic_zero_rescaled[of data kern] by blast
  show ?thesis using a b c by blast
qed

lemma percentile_example: "column_percentiles [[Fl 1], [Fl 2]] = Inr [Fl 2]"
  by (simp add: column_percentiles_def ncols_def columns_def matlab_percentile_def np_sort_def
      fl_before_def np_interp_def upt_rec numeral_2_eq_2)

theorem magic_zero_steps_witness:
  "(\<exists>P. magic [[1], [2]] [[Fl 1, Fl 0], [Fl 0, Fl 1]] 0 False = Inr ([[Fl 1], [Fl 2]], P))
   \<and> (\<exists>P. magic [[1, 2]] [[Fl 1, Fl 0], [Fl 0, Fl 1]] 0 False = Inr ([[Fl 1], [Fl 2]], P))
   \<and> (\<exists>P. magic [[1], [2]] [[Fl 1, Fl 0], [Fl 0, Fl 1]] 0 True = Inr ([[Fl 1], [Fl 2]], P))"
  using magic_zero_steps [of "[[1], [2]]" "[[Fl 1, Fl 0], [Fl 0, Fl 1]]"]
        magic_zero_steps [of "[[1, 2]]" "[[Fl 1, Fl 0], [Fl 0, Fl 1]]"]
        percentile_example
  by (simp add: ncols_def columns_def upt_rec numeral_2_eq_2)

theorem magic_zero_steps_counterexample:
  "magic [[1, 2]] [[Fl 1, Fl 0], [Fl 0, Fl 1]] 0 False
     = Inr ([[Fl 1], [Fl 2]], [[Fl 1, Fl 0], [Fl 0, Fl 1]])
   \<and> [[Fl 1], [Fl 2]] \<noteq> map (map Fl) [[1, 2]]"
  by (simp add: magic_def matmul_def diffusion_degree_def ncols_def columns_def fl_sum_def
      Let_def upt_rec numeral_2_eq_2)

section \<open>The degree vector\<close>

text \<open>
  C2 (evaluation). Three points in the plane, all at the origin, with the fixed bandwidth 1:
  the kernel is all ones, the column sums are \<open>p = [3, 3, 3]\<close>, and \<^verbatim>\<open>degrees\<close> returns
  \<open>p * 2 / 9\<close>, which sums to 2, the number of columns of the data, not to the number of
  points 3.
\<close>

theorem degrees_sum_is_column_count:
  "degrees [[0, 0], [0, 0], [0, 0]] (SigmaNum 1) 5 2 1
     = Inr ([Fl (2 / 3), Fl (2 / 3), Fl (2 / 3)], [Fl (3 / 2), Fl (3 / 2), Fl (3 / 2)], BwScalar (Fl 1))
   \<and> fl_sum [Fl (2 / 3), Fl (2 / 3), Fl (2 / 3)] = Fl 2"
  by (simp add: degrees_def gauss_kernel_def validate_sigma_def cdist_def ncols_def euclid_def
      columns_def Let_def thresholded_def decay_def zero_nan_def zero_small_def symmetrize_def
      fl_sum_def upt_rec numeral_2_eq_2 numeral_3_eq_3)

section \<open>Sampling\<close>

lemma generate_scalar_raises: "\<exists>e. generate mvn data npts (NoiseScalar c) labels = Inl e"
  by (simp add: generate_def Let_def split: sum.splits prod.splits)

text \<open>
  C3 (evaluation). With a scalar noise variance \<^verbatim>\<open>generate\<close> raises AttributeError
  instead of producing the one requested row; with per-point covariances and an all-zero
  budget it raises the ValueError of \<^verbatim>\<open>np.vstack\<close> on an empty list instead of
  returning an empty point set.
\<close>

theorem generate_raises:
  "generate mvn [[0, 0]] [Fl 1] (NoiseScalar 1) ([] :: string list) = Inl AttributeError
   \<and> generate mvn [[0, 0]] [Fl 0] (NoiseLocal [[[Fl 1, Fl 0], [Fl 0, Fl 1]]]) ([] :: string list)
       = Inl EmptyReduction"
  by (simp add: generate_def enumerate_from0_def astype_int_def vstack_def Let_def)

section \<open>MGC-MAGIC with no diffusion step\<close>

text \<open>
  C4 (evaluation). Called with \<open>t = 0\<close> and a logger, \<^verbatim>\<open>mgc_magic\<close> emits the warning
  but goes on: it builds both kernels and calls \<^verbatim>\<open>magic\<close>, and returns a non-empty
  kernel and diffusion operator.
\<close>

theorem mgc_magic_zero_steps:
  "mgc_magic [[1]] [[1]] [Fl 1] (SigmaNum 1) 5 2 1 0 True True
     = ([''mgc_magic was passed t=0, no mgc_magic was performed''],
        Inr ([[Fl 1]], [[Fl 1]], [[Fl 1]]))"
  by (simp add: mgc_magic_def gauss_kernel_def validate_sigma_def cdist_def ncols_def euclid_def
      columns_def bcast2_def bcast1_def Let_def thresholded_def decay_def zero_nan_def
      zero_small_def symmetrize_def matmul_def fl_sum_def magic_def diffusion_degree_def
      column_percentiles_def matlab_percentile_def np_sort_def np_interp_def
      upt_rec numeral_2_eq_2)

section \<open>The pipeline\<close>

lemma sugar_never_returns:
  "\<exists>e. sugar L data labels noise_cov noise_k degree_sigma degree_k degree_a degree_fac M equalize
          mgc_t mgc_sigma mgc_k mgc_a mgc_fac magic_rescale = Inl e"
  by (simp add: sugar_def Let_def split: sum.splits prod.splits noise_spec.splits)

text \<open>
  C1 (evaluation). Two points at the origin of the plane, no labels, scalar noise 1, fixed
  degree bandwidth 1, \<open>M = 0\<close>, no equalisation, \<open>mgc_t = 0\<close>: the degree estimate and the
  budget are computed, and the call then ends in the AttributeError of the scalar branch
  of \<^verbatim>\<open>generate\<close>; nothing is returned.
\<close>

theorem sugar_scalar_noise_raises:
  "sugar L [[0, 0], [0, 0]] ([] :: string list) (NoiseNum 1) 5 (SigmaNum 1) 5 2 1 0 False
         0 (SigmaStr ''knn'') 5 2 1 True = Inl AttributeError"
  by (simp add: sugar_def degrees_def gauss_kernel_def validate_sigma_def cdist_def ncols_def
      euclid_def columns_def Let_def thresholded_def decay_def zero_nan_def zero_small_def
      symmetrize_def fl_sum_def numpts_def np_max_def fl_max2_def scale_to_M_def
      generate_def enumerate_from0_def astype_int_def upt_rec numeral_2_eq_2)

section \<open>The point budget without equalisation\<close>













lemma sum_list_scaled: "sum_list (map (\<lambda>r. r * m / T) rs) = sum_list rs * m / (T :: real)"
  by (induction rs) (simp_all add: add_divide_distrib distrib_right)






section \<open>The degree sum in general\<close>

lemma gauss_kernel_validated:
  "gauss_kernel data1 data2 sigma k a fac = Inr r \<Longrightarrow> validate_sigma sigma = Inr ()"
  by (cases "validate_sigma sigma") (simp_all add: gauss_kernel_def)

text \<open>
  Whenever the kernel is finite with column sums \<open>ps\<close> of non-zero total, the degree
  vector is \<open>ps * D / sum(ps)\<close> for the number \<open>D\<close> of columns of the data, and sums
  to \<open>D\<close>.
\<close>

lemma degrees_sum_general:
  assumes gk: "gauss_kernel data data sigma k a fac = Inr (K, s)"
    and ps: "map fl_sum (columns K) = map Fl ps"
    and nz: "sum_list ps \<noteq> 0"
  shows "\<exists>s_hat. degrees data sigma k a fac
                   = Inr (map (\<lambda>x. Fl (x * real (ncols data) / sum_list ps)) ps, s_hat, s)
           \<and> fl_sum (map (\<lambda>x. Fl (x * real (ncols data) / sum_list ps)) ps) = Fl (real (ncols data))"
proof -
  let ?D = "real (ncols data)" and ?P = "sum_list ps"
  have v: "validate_sigma sigma = Inr ()" using gk by (rule gauss_kernel_validated)
  have d: "map (\<lambda>x. fl_div (fl_mul x (Fl ?D)) (fl_sum (map Fl ps))) (map Fl ps)
             = map (\<lambda>x. Fl (x * ?D / ?P)) ps"
    using nz by (simp add: fl_sum_Fl)
  have "degrees data sigma k a fac
          = Inr (map (\<lambda>x. Fl (x * ?D / ?P)) ps,
                 map (\<lambda>d. fl_div (Fl 1) d) (map (\<lambda>x. Fl (x * ?D / ?P)) ps), s)"
    by (simp only: degrees_def v gk ps d Let_def sum.case prod.case)
  moreover have "fl_sum (map (\<lambda>x. Fl (x * ?D / ?P)) ps) = Fl ?D"
  proof -
    have "map (\<lambda>x. Fl (x * ?D / ?P)) ps = map Fl (map (\<lambda>x. x * ?D / ?P) ps)" by simp
    then have "fl_sum (map (\<lambda>x. Fl (x * ?D / ?P)) ps) = Fl (sum_list (map (\<lambda>x. x * ?D / ?P) ps))"
      by (simp only: fl_sum_Fl)
    also have "sum_list (map (\<lambda>x. x * ?D / ?P) ps) = ?P * ?D / ?P" by (rule sum_list_scaled)
    also have "\<dots> = ?D" using nz by simp
    finally show ?thesis .
  qed
  ultimately show ?thesis by blast
qed

end
